theory Spec2Isabelle
  imports Complex_Main
begin

section \<open>Python dictionaries in insertion order\<close>

text \<open>
  The class \<open>ExpenseManager\<close> of \<open>spliter.py\<close> keeps two dictionaries:
  \<open>balances = defaultdict(float)\<close> and
  \<open>transactions = defaultdict(lambda: defaultdict(float))\<close>.
  A Python dictionary iterates in the order in which its keys were first inserted, and
  \<open>display_transactions\<close> prints in that order, so a dictionary is an association list
  with the oldest key first. Amounts are Python floats; they are modelled as exact
  rationals, so every statement below is one of exact arithmetic.
\<close>

type_synonym person = string

text \<open>Reading \<open>d.get(k, dflt)\<close>: no key is created.\<close>

definition dict_get :: "'v \<Rightarrow> 'k \<Rightarrow> ('k \<times> 'v) list \<Rightarrow> 'v" where
  "dict_get dflt k d = (case map_of d k of None \<Rightarrow> dflt | Some v \<Rightarrow> v)"

text \<open>
  The augmented assignment \<open>d[k] = f(d[k])\<close> on a \<open>defaultdict\<close> whose factory
  returns \<open>dflt\<close>: an existing key keeps its place, a missing key is created at the end.
\<close>

fun dict_modify :: "'v \<Rightarrow> 'k \<Rightarrow> ('v \<Rightarrow> 'v) \<Rightarrow> ('k \<times> 'v) list \<Rightarrow> ('k \<times> 'v) list" where
  "dict_modify dflt k f [] = [(k, f dflt)]"
| "dict_modify dflt k f ((k', v) # d) =
     (if k' = k then (k', f v) # d else (k', v) # dict_modify dflt k f d)"

text \<open>The keys of a dictionary are pairwise different.\<close>

definition dict_ok :: "('k \<times> 'v) list \<Rightarrow> bool" where
  "dict_ok d = distinct (map fst d)"

section \<open>The accumulator\<close>

record ExpenseManager =
  balances :: "(person \<times> rat) list"
  transactions :: "(person \<times> (person \<times> rat) list) list"

datatype py_error = ZeroDivisionError

text \<open>\<open>__init__\<close>: two empty dictionaries.\<close>

definition init :: ExpenseManager where
  "init = \<lparr>balances = [], transactions = []\<rparr>"

text \<open>The truth value of \<open>item\<close> in \<open>if item:\<close>: \<open>None\<close> and the empty string are false.\<close>

fun truthy :: "string option \<Rightarrow> bool" where
  "truthy None = False"
| "truthy (Some s) = (s \<noteq> [])"

text \<open>One round of the loop \<open>for person in participants\<close> of \<open>add_expense\<close>.\<close>

definition add_expense_body ::
  "person \<Rightarrow> rat \<Rightarrow> string option \<Rightarrow> person \<Rightarrow> ExpenseManager \<Rightarrow> ExpenseManager" where
  "add_expense_body payer split_amount item person s =
     (if person \<noteq> payer then
        let s1 = s\<lparr>balances := dict_modify 0 person (\<lambda>b. b - split_amount) (balances s)\<rparr>;
            s2 = s1\<lparr>balances := dict_modify 0 payer (\<lambda>b. b - split_amount) (balances s1)\<rparr>
        in if truthy item
           then s2\<lparr>transactions :=
                    dict_modify [] person (dict_modify 0 payer (\<lambda>t. t + split_amount))
                      (transactions s2)\<rparr>
           else s2\<lparr>transactions :=
                    dict_modify [] person (dict_modify 0 payer (\<lambda>t. t + split_amount))
                      (transactions s2)\<rparr>
      else s)"

fun add_expense_loop ::
  "person \<Rightarrow> rat \<Rightarrow> string option \<Rightarrow> person list \<Rightarrow> ExpenseManager \<Rightarrow> ExpenseManager" where
  "add_expense_loop payer split_amount item [] s = s"
| "add_expense_loop payer split_amount item (person # rest) s =
     add_expense_loop payer split_amount item rest
       (add_expense_body payer split_amount item person s)"

text \<open>
  \<open>add_expense\<close> returns nothing; the model returns how the call ended (\<open>Inr ()\<close>, or
  \<open>Inl\<close> the exception raised) together with the accumulator as the call leaves it.
  The division \<open>amount / len(participants)\<close> is the first statement and raises
  \<open>ZeroDivisionError\<close> on an empty list.
\<close>

definition add_expense ::
  "person \<Rightarrow> rat \<Rightarrow> person list \<Rightarrow> string option \<Rightarrow> ExpenseManager
     \<Rightarrow> (py_error + unit) \<times> ExpenseManager" where
  "add_expense payer amount participants item s =
     (if length participants = 0 then (Inl ZeroDivisionError, s)
      else
        let split_amount = amount / of_nat (length participants);
            s1 = s\<lparr>balances := dict_modify 0 payer (\<lambda>b. b + amount) (balances s)\<rparr>
        in (Inr (), add_expense_loop payer split_amount item participants s1))"

text \<open>
  A script of consecutive calls, as in the \<open>__main__\<close> block: an exception ends it.
\<close>

record expense =
  payer_of :: person
  amount_of :: rat
  participants_of :: "person list"
  item_of :: "string option"

fun add_expenses :: "expense list \<Rightarrow> ExpenseManager \<Rightarrow> (py_error + unit) \<times> ExpenseManager" where
  "add_expenses [] s = (Inr (), s)"
| "add_expenses (e # es) s =
     (case add_expense (payer_of e) (amount_of e) (participants_of e) (item_of e) s of
        (Inl err, s') \<Rightarrow> (Inl err, s')
      | (Inr _, s') \<Rightarrow> add_expenses es s')"

text \<open>A call the specification calls valid: positive amount, at least one participant.\<close>

definition valid_expense :: "expense \<Rightarrow> bool" where
  "valid_expense e = (0 < amount_of e \<and> participants_of e \<noteq> [])"

text \<open>Reading the two dictionaries without creating keys.\<close>

definition balance_of :: "ExpenseManager \<Rightarrow> person \<Rightarrow> rat" where
  "balance_of s p = dict_get 0 p (balances s)"

definition entry_of :: "(person \<times> (person \<times> rat) list) list \<Rightarrow> person \<Rightarrow> person \<Rightarrow> rat" where
  "entry_of t a b = dict_get 0 b (dict_get [] a t)"

definition owed :: "ExpenseManager \<Rightarrow> person \<Rightarrow> person \<Rightarrow> rat" where
  "owed s a b = entry_of (transactions s) a b"

text \<open>The sum of all values of \<open>balances\<close>.\<close>

definition total_balance :: "ExpenseManager \<Rightarrow> rat" where
  "total_balance s = sum_list (map snd (balances s))"

text \<open>No stored entry of \<open>transactions\<close> is negative.\<close>

definition entries_nonneg :: "(person \<times> (person \<times> rat) list) list \<Rightarrow> bool" where
  "entries_nonneg t = list_all (\<lambda>(a, debts). list_all (\<lambda>(b, v). 0 \<le> v) debts) t"

text \<open>The outer dictionary and every inner one have pairwise different keys.\<close>

definition ledger_ok :: "(person \<times> (person \<times> rat) list) list \<Rightarrow> bool" where
  "ledger_ok t = (dict_ok t \<and> list_all (\<lambda>(a, debts). dict_ok debts) t)"

section \<open>\<open>display_transactions\<close>\<close>

text \<open>
  The first two loops build \<open>total_debts\<close>, again a \<open>defaultdict\<close> of
  \<open>defaultdict(float)\<close>, from the items of \<open>transactions\<close>.
\<close>

fun aggregate_debts ::
  "person \<Rightarrow> (person \<times> rat) list \<Rightarrow> (person \<times> (person \<times> rat) list) list
     \<Rightarrow> (person \<times> (person \<times> rat) list) list" where
  "aggregate_debts person [] td = td"
| "aggregate_debts person ((payer, amount) # debts) td =
     aggregate_debts person debts
       (dict_modify [] payer (dict_modify 0 person (\<lambda>x. x - amount))
          (dict_modify [] person (dict_modify 0 payer (\<lambda>x. x + amount)) td))"

fun aggregate ::
  "(person \<times> (person \<times> rat) list) list \<Rightarrow> (person \<times> (person \<times> rat) list) list
     \<Rightarrow> (person \<times> (person \<times> rat) list) list" where
  "aggregate [] td = td"
| "aggregate ((person, debts) # rest) td = aggregate rest (aggregate_debts person debts td)"

definition total_debts :: "ExpenseManager \<Rightarrow> (person \<times> (person \<times> rat) list) list" where
  "total_debts s = aggregate (transactions s) []"

text \<open>
  What is printed: a heading (the source's string, which starts with a newline), or a
  line of one of the two passes with the debtor, the creditor and the amount. The
  rendering of the amount with two decimals and the suffix \<open>INR\<close> is text around
  these three values.
\<close>

datatype line =
  Heading string
| Owes person person rat
| Owes_total person person rat

fun detailed_debts :: "person \<Rightarrow> (person \<times> rat) list \<Rightarrow> line list" where
  "detailed_debts person [] = []"
| "detailed_debts person ((payer, amount) # debts) =
     (if amount > 0 then [Owes person payer amount] else []) @ detailed_debts person debts"

fun detailed :: "(person \<times> (person \<times> rat) list) list \<Rightarrow> line list" where
  "detailed [] = []"
| "detailed ((person, debts) # td) = detailed_debts person debts @ detailed td"

fun summary_debts :: "person \<Rightarrow> (person \<times> rat) list \<Rightarrow> line list" where
  "summary_debts person [] = []"
| "summary_debts person ((payer, total_amount) # debts) =
     (if total_amount > 0 then [Owes_total person payer total_amount] else [])
       @ summary_debts person debts"

fun summary :: "(person \<times> (person \<times> rat) list) list \<Rightarrow> line list" where
  "summary [] = []"
| "summary ((person, debts) # td) = summary_debts person debts @ summary td"

definition display_transactions :: "ExpenseManager \<Rightarrow> line list" where
  "display_transactions s =
     (let td = total_debts s
      in [Heading (CHR 0x0A # ''Detailed Transactions:'')] @ detailed td
         @ [Heading (CHR 0x0A # ''Summary of Total Amounts Owed:'')] @ summary td)"

text \<open>The (debtor, creditor, amount) triple of a printed line; a heading has none.\<close>

fun triple :: "line \<Rightarrow> (person \<times> person \<times> rat) option" where
  "triple (Heading h) = None"
| "triple (Owes a b v) = Some (a, b, v)"
| "triple (Owes_total a b v) = Some (a, b, v)"

definition triples :: "line list \<Rightarrow> (person \<times> person \<times> rat) list" where
  "triples ls = List.map_filter triple ls"

text \<open>The net debt of the specification: the entry minus the reverse entry.\<close>

definition net :: "ExpenseManager \<Rightarrow> person \<Rightarrow> person \<Rightarrow> rat" where
  "net s a b = owed s a b - owed s b a"

text \<open>
  Two sums used to state what the aggregation loops compute: all amounts stored under
  one key of an inner list, and all amounts recorded from \<open>a\<close> towards \<open>b\<close> in a
  nested list. On dictionaries (pairwise different keys) they are the stored entry.
\<close>

definition amounts_for :: "person \<Rightarrow> (person \<times> rat) list \<Rightarrow> rat" where
  "amounts_for k debts = sum_list (map snd (filter (\<lambda>kv. fst kv = k) debts))"

definition recorded :: "(person \<times> (person \<times> rat) list) list \<Rightarrow> person \<Rightarrow> person \<Rightarrow> rat" where
  "recorded t a b = sum_list (map (\<lambda>pd. amounts_for b (snd pd)) (filter (\<lambda>pd. fst pd = a) t))"

section \<open>Snapshots: \<open>get_balances\<close> and \<open>get_transactions\<close>\<close>

text \<open>
  \<open>get_balances\<close> returns \<open>dict(self.balances)\<close> and \<open>get_transactions\<close> returns
  \<open>dict(self.transactions)\<close>: a new dictionary object holding the items of the old
  one. The values of \<open>balances\<close> are floats, the values of \<open>transactions\<close> are the
  inner \<open>defaultdict\<close> objects themselves. What a caller can do to the accumulator
  through a snapshot depends on which objects are shared, so these two methods are
  modelled over a store of dictionary objects: a value is a float or a reference to a
  dictionary, and the accumulator object holds the references of its two dictionaries.
\<close>

type_synonym ref = nat

datatype pyval = Float rat | Ref ref

datatype lookup_error = KeyError | TypeError

record store =
  objects :: "ref \<Rightarrow> (person \<times> pyval) list option"
  next_ref :: ref

record ExpenseManager_obj =
  balances_ref :: ref
  transactions_ref :: ref

text \<open>The items of the dictionary at a reference (none where the store has no object).\<close>

definition items :: "store \<Rightarrow> ref \<Rightarrow> (person \<times> pyval) list" where
  "items st r = (case objects st r of None \<Rightarrow> [] | Some d \<Rightarrow> d)"

text \<open>\<open>dict(d)\<close>: a new object with the items of \<open>d\<close>; the values are not copied.\<close>

definition py_dict :: "ref \<Rightarrow> store \<Rightarrow> ref \<times> store" where
  "py_dict r st =
     (let new = next_ref st
      in (new, st\<lparr>objects := (objects st)(new \<mapsto> items st r), next_ref := Suc new\<rparr>))"

definition get_balances :: "ExpenseManager_obj \<Rightarrow> store \<Rightarrow> ref \<times> store" where
  "get_balances self st = py_dict (balances_ref self) st"

definition get_transactions :: "ExpenseManager_obj \<Rightarrow> store \<Rightarrow> ref \<times> store" where
  "get_transactions self st = py_dict (transactions_ref self) st"

text \<open>
  What a caller does with a snapshot, which is a plain \<open>dict\<close>: \<open>d[k]\<close> raises
  \<open>KeyError\<close> on a missing key, \<open>d[k] = v\<close> stores, and \<open>d[k1][k2] = v\<close> stores into
  the dictionary that \<open>d[k1]\<close> refers to (a float has no item assignment).
\<close>

definition py_getitem :: "ref \<Rightarrow> person \<Rightarrow> store \<Rightarrow> lookup_error + pyval" where
  "py_getitem r k st = (case map_of (items st r) k of None \<Rightarrow> Inl KeyError | Some v \<Rightarrow> Inr v)"

definition py_setitem :: "ref \<Rightarrow> person \<Rightarrow> pyval \<Rightarrow> store \<Rightarrow> store" where
  "py_setitem r k v st =
     st\<lparr>objects := (objects st)(r \<mapsto> dict_modify v k (\<lambda>_. v) (items st r))\<rparr>"

definition py_setitem_nested ::
  "ref \<Rightarrow> person \<Rightarrow> person \<Rightarrow> pyval \<Rightarrow> store \<Rightarrow> lookup_error + store" where
  "py_setitem_nested r k1 k2 v st =
     (case py_getitem r k1 st of
        Inl e \<Rightarrow> Inl e
      | Inr (Float x) \<Rightarrow> Inl TypeError
      | Inr (Ref i) \<Rightarrow> Inr (py_setitem i k2 v st))"

text \<open>
  The content of the accumulator object in a store, as the value of type
  \<open>ExpenseManager\<close> that the other sections work with.
\<close>

fun float_of :: "pyval \<Rightarrow> rat" where
  "float_of (Float x) = x"
| "float_of (Ref i) = 0"

definition view_floats :: "store \<Rightarrow> ref \<Rightarrow> (person \<times> rat) list" where
  "view_floats st r = map (\<lambda>(k, v). (k, float_of v)) (items st r)"

fun view_inner :: "store \<Rightarrow> pyval \<Rightarrow> (person \<times> rat) list" where
  "view_inner st (Ref i) = view_floats st i"
| "view_inner st (Float x) = []"

definition view_nested :: "store \<Rightarrow> ref \<Rightarrow> (person \<times> (person \<times> rat) list) list" where
  "view_nested st r = map (\<lambda>(k, v). (k, view_inner st v)) (items st r)"

definition state_of :: "store \<Rightarrow> ExpenseManager_obj \<Rightarrow> ExpenseManager" where
  "state_of st self =
     \<lparr>balances = view_floats st (balances_ref self),
      transactions = view_nested st (transactions_ref self)\<rparr>"

text \<open>
  The accumulator's references are allocated, and so are the references stored in
  \<open>transactions\<close>.
\<close>

fun ref_below :: "ref \<Rightarrow> pyval \<Rightarrow> bool" where
  "ref_below n (Ref i) = (i < n)"
| "ref_below n (Float x) = True"

definition store_ok :: "store \<Rightarrow> ExpenseManager_obj \<Rightarrow> bool" where
  "store_ok st self =
     (balances_ref self < next_ref st \<and> transactions_ref self < next_ref st
      \<and> list_all (\<lambda>(k, v). ref_below (next_ref st) v) (items st (transactions_ref self)))"

text \<open>
  The store after \<open>add_expense('A', 100, ['A', 'B'])\<close> on a new accumulator: object 0
  is \<open>balances\<close>, object 1 is \<open>transactions\<close>, object 2 is the inner dictionary
  \<open>transactions['B']\<close> that the factory created.
\<close>

definition shared_store :: store where
  "shared_store =
     \<lparr>objects = [0 \<mapsto> [(''A'', Float 50), (''B'', Float (- 50))],
                  1 \<mapsto> [(''B'', Ref 2)],
                  2 \<mapsto> [(''A'', Float 50)]],
      next_ref = 3\<rparr>"

definition shared_manager :: ExpenseManager_obj where
  "shared_manager = \<lparr>balances_ref = 0, transactions_ref = 1\<rparr>"

section \<open>Theorems\<close>

lemma add_expense_body_item:
  "add_expense_body payer split_amount item person s =
   add_expense_body payer split_amount item' person s"
  by (simp add: add_expense_body_def Let_def)

lemma add_expense_loop_item:
  "add_expense_loop payer split_amount item participants s =
   add_expense_loop payer split_amount item' participants s"
proof (induction participants arbitrary: s)
  case Nil
  show ?case by simp
next
  case (Cons person rest)
  have "add_expense_body payer split_amount item person s =
        add_expense_body payer split_amount item' person s"
    by (rule add_expense_body_item)
  with Cons.IH show ?case by simp
qed

text \<open>
  Claim C6. Two calls of \<open>add_expense\<close> on the same accumulator with the same payer,
  amount and participants end the same way and leave the same \<open>balances\<close> and
  \<open>transactions\<close>, whatever the two \<open>item\<close> arguments are (\<open>None\<close>, the empty
  string or any other string).
\<close>

theorem add_expense_item_irrelevant:
  "add_expense payer amount participants item s =
   add_expense payer amount participants item' s"
  unfolding add_expense_def Let_def
  using add_expense_loop_item [of payer _ item participants _ item'] by simp

subsection \<open>Reading the dictionaries after a call\<close>

lemma dict_get_modify:
  "dict_get dflt k' (dict_modify dflt k f d) =
     (if k' = k then f (dict_get dflt k d) else dict_get dflt k' d)"
  by (induction d) (auto simp: dict_get_def)

lemma entry_of_modify:
  "entry_of (dict_modify [] p (dict_modify 0 q f) t) a b =
     (if a = p \<and> b = q then f (entry_of t a b) else entry_of t a b)"
  by (simp add: entry_of_def dict_get_modify)

lemma balance_of_body:
  "balance_of (add_expense_body payer sp item person s) q =
     (if person = payer then balance_of s q
      else balance_of s q - (if q = person then sp else 0) - (if q = payer then sp else 0))"
  by (simp add: add_expense_body_def balance_of_def dict_get_modify Let_def)

lemma owed_body:
  "owed (add_expense_body payer sp item person s) a b =
     (if person \<noteq> payer \<and> a = person \<and> b = payer then owed s a b + sp else owed s a b)"
  by (simp add: add_expense_body_def owed_def entry_of_modify Let_def)

lemma balance_of_loop:
  "balance_of (add_expense_loop payer sp item ps s) q =
     balance_of s q -
       (if q = payer then of_nat (length (filter (\<lambda>p. p \<noteq> payer) ps)) * sp
        else of_nat (count_list ps q) * sp)"
proof (induction ps arbitrary: s)
  case Nil
  show ?case by simp
next
  case (Cons person rest)
  let ?s1 = "add_expense_body payer sp item person s"
  have "balance_of (add_expense_loop payer sp item (person # rest) s) q =
        balance_of ?s1 q -
          (if q = payer then of_nat (length (filter (\<lambda>p. p \<noteq> payer) rest)) * sp
           else of_nat (count_list rest q) * sp)"
    using Cons.IH [of ?s1] by simp
  also have "\<dots> = balance_of s q -
          (if q = payer then of_nat (length (filter (\<lambda>p. p \<noteq> payer) (person # rest))) * sp
           else of_nat (count_list (person # rest) q) * sp)"
    by (simp add: balance_of_body algebra_simps)
  finally show ?case .
qed

lemma owed_loop:
  "owed (add_expense_loop payer sp item ps s) a b =
     owed s a b + (if a \<noteq> payer \<and> b = payer then of_nat (count_list ps a) * sp else 0)"
proof (induction ps arbitrary: s)
  case Nil
  show ?case by simp
next
  case (Cons person rest)
  let ?s1 = "add_expense_body payer sp item person s"
  have "owed (add_expense_loop payer sp item (person # rest) s) a b =
        owed ?s1 a b
          + (if a \<noteq> payer \<and> b = payer then of_nat (count_list rest a) * sp else 0)"
    using Cons.IH [of ?s1] by simp
  also have "\<dots> = owed s a b
          + (if a \<noteq> payer \<and> b = payer then of_nat (count_list (person # rest) a) * sp else 0)"
    by (auto simp: owed_body algebra_simps)
  finally show ?case .
qed

lemma balance_of_add_expense:
  "participants \<noteq> [] \<Longrightarrow>
   balance_of (snd (add_expense payer amount participants item s)) q =
     (if q = payer
      then balance_of s q + amount
             - of_nat (length (filter (\<lambda>p. p \<noteq> payer) participants))
                 * (amount / of_nat (length participants))
      else balance_of s q
             - of_nat (count_list participants q) * (amount / of_nat (length participants)))"
  by (simp add: add_expense_def Let_def balance_of_loop)
   (simp add: balance_of_def dict_get_modify)

lemma owed_add_expense:
  "participants \<noteq> [] \<Longrightarrow>
   owed (snd (add_expense payer amount participants item s)) a b =
     owed s a b + (if a \<noteq> payer \<and> b = payer
                   then of_nat (count_list participants a) * (amount / of_nat (length participants))
                   else 0)"
  by (simp add: add_expense_def Let_def owed_loop) (simp add: owed_def)

lemma fst_add_expense:
  "participants \<noteq> [] \<Longrightarrow> fst (add_expense payer amount participants item s) = Inr ()"
  by (simp add: add_expense_def Let_def)

text \<open>
  Claim C3. On every accumulator, \<open>add_expense\<close> with an empty list of participants
  raises \<open>ZeroDivisionError\<close> instead of completing, and \<open>balances\<close> and
  \<open>transactions\<close> are what they were before the call.
\<close>

theorem add_expense_empty_participants:
  "add_expense payer amount [] item s = (Inl ZeroDivisionError, s)"
  by (simp add: add_expense_def)


subsection \<open>One call: balances and entries\<close>

lemma count_list_distinct:
  "distinct xs \<Longrightarrow> x \<in> set xs \<Longrightarrow> count_list xs x = 1"
  by (induction xs) auto

lemma filter_outside: "payer \<notin> set ps \<Longrightarrow> filter (\<lambda>p. p \<noteq> payer) ps = ps"
  by (induction ps) auto

lemma sum_dict_modify:
  "sum_list (map snd (dict_modify (0::rat) k (\<lambda>b. b + c) d)) = sum_list (map snd d) + c"
  by (induction d) auto

lemma sum_dict_modify_minus:
  "sum_list (map snd (dict_modify (0::rat) k (\<lambda>b. b - c) d)) = sum_list (map snd d) - c"
  by (induction d) auto

lemma total_balance_body:
  "total_balance (add_expense_body payer sp item person s) =
     total_balance s - (if person = payer then 0 else 2 * sp)"
  by (simp add: add_expense_body_def total_balance_def Let_def sum_dict_modify_minus)

lemma total_balance_loop:
  "total_balance (add_expense_loop payer sp item ps s) =
     total_balance s - 2 * of_nat (length (filter (\<lambda>p. p \<noteq> payer) ps)) * sp"
proof (induction ps arbitrary: s)
  case Nil
  show ?case by simp
next
  case (Cons person rest)
  let ?s1 = "add_expense_body payer sp item person s"
  have "total_balance (add_expense_loop payer sp item (person # rest) s) =
        total_balance ?s1 - 2 * of_nat (length (filter (\<lambda>p. p \<noteq> payer) rest)) * sp"
    using Cons.IH [of ?s1] by simp
  also have "\<dots> = total_balance s
        - 2 * of_nat (length (filter (\<lambda>p. p \<noteq> payer) (person # rest))) * sp"
    by (simp add: total_balance_body algebra_simps)
  finally show ?case .
qed

lemma total_balance_add_expense:
  "participants \<noteq> [] \<Longrightarrow>
   total_balance (snd (add_expense payer amount participants item s)) =
     total_balance s + amount
       - 2 * of_nat (length (filter (\<lambda>p. p \<noteq> payer) participants))
           * (amount / of_nat (length participants))"
  by (simp add: add_expense_def Let_def total_balance_loop)
     (simp add: total_balance_def sum_dict_modify)

text \<open>
  Claim C2. One call of \<open>add_expense\<close> on a fresh accumulator, with
  \<open>share = amount / len(participants)\<close> and \<open>k\<close> participants other than the payer:
  the payer ends with \<open>amount - k * share\<close>; a participant other than the payer ends
  with minus the share for each time the list names them, and owes the payer as much, so
  with participants that are pairwise different (the specification's set of persons)
  every one of them ends with \<open>- share\<close> and owes the payer \<open>share\<close>. The two
  examples of the specification are the last two conjuncts.
\<close>

theorem add_expense_single_expense:
  "(participants \<noteq> [] \<longrightarrow>
      (let share = amount / of_nat (length participants);
           k = length (filter (\<lambda>p. p \<noteq> payer) participants);
           s' = snd (add_expense payer amount participants item init)
       in fst (add_expense payer amount participants item init) = Inr ()
          \<and> balance_of s' payer = amount - of_nat k * share
          \<and> (\<forall>p\<in>set participants. p \<noteq> payer \<longrightarrow>
                 balance_of s' p = - (of_nat (count_list participants p) * share)
               \<and> owed s' p payer = of_nat (count_list participants p) * share)
          \<and> (distinct participants \<longrightarrow>
                (\<forall>p\<in>set participants. p \<noteq> payer \<longrightarrow>
                   balance_of s' p = - share \<and> owed s' p payer = share))))
   \<and> add_expense ''A'' 100 [''A'', ''B''] None init =
       (Inr (), \<lparr>balances = [(''A'', 50), (''B'', - 50)],
                 transactions = [(''B'', [(''A'', 50)])]\<rparr>)
   \<and> add_expense ''A'' 100 [''A'', ''B'', ''C'', ''D'', ''E''] None init =
       (Inr (), \<lparr>balances = [(''A'', 20), (''B'', - 20), (''C'', - 20), (''D'', - 20),
                             (''E'', - 20)],
                 transactions = [(''B'', [(''A'', 20)]), (''C'', [(''A'', 20)]),
                                 (''D'', [(''A'', 20)]), (''E'', [(''A'', 20)])]\<rparr>)"
proof -
  have fresh: "balance_of init q = 0" "owed init a b = 0" for q a b
    by (simp_all add: balance_of_def owed_def entry_of_def dict_get_def init_def)
  have general: "participants \<noteq> [] \<longrightarrow>
      (let share = amount / of_nat (length participants);
           k = length (filter (\<lambda>p. p \<noteq> payer) participants);
           s' = snd (add_expense payer amount participants item init)
       in fst (add_expense payer amount participants item init) = Inr ()
          \<and> balance_of s' payer = amount - of_nat k * share
          \<and> (\<forall>p\<in>set participants. p \<noteq> payer \<longrightarrow>
                 balance_of s' p = - (of_nat (count_list participants p) * share)
               \<and> owed s' p payer = of_nat (count_list participants p) * share)
          \<and> (distinct participants \<longrightarrow>
                (\<forall>p\<in>set participants. p \<noteq> payer \<longrightarrow>
                   balance_of s' p = - share \<and> owed s' p payer = share)))"
    by (simp add: Let_def fst_add_expense balance_of_add_expense owed_add_expense fresh
          count_list_distinct)
  have two: "add_expense ''A'' 100 [''A'', ''B''] None init =
       (Inr (), \<lparr>balances = [(''A'', 50), (''B'', - 50)],
                 transactions = [(''B'', [(''A'', 50)])]\<rparr>)"
    by (simp add: add_expense_def add_expense_body_def init_def Let_def)
  have five: "add_expense ''A'' 100 [''A'', ''B'', ''C'', ''D'', ''E''] None init =
       (Inr (), \<lparr>balances = [(''A'', 20), (''B'', - 20), (''C'', - 20), (''D'', - 20),
                             (''E'', - 20)],
                 transactions = [(''B'', [(''A'', 20)]), (''C'', [(''A'', 20)]),
                                 (''D'', [(''A'', 20)]), (''E'', [(''A'', 20)])]\<rparr>)"
    by (simp add: add_expense_def add_expense_body_def init_def Let_def)
  from general two five show ?thesis by blast
qed

theorem add_expense_single_expense_witness:
  "[''A'', ''B'', ''C''] \<noteq> [] \<and> distinct [''A'', ''B'', ''C'']
   \<and> fst (add_expense ''A'' 90 [''A'', ''B'', ''C''] (Some ''tea'') init) = Inr ()
   \<and> balance_of (snd (add_expense ''A'' 90 [''A'', ''B'', ''C''] (Some ''tea'') init)) ''A'' = 30
   \<and> balance_of (snd (add_expense ''A'' 90 [''A'', ''B'', ''C''] (Some ''tea'') init)) ''B'' = - 30
   \<and> balance_of (snd (add_expense ''A'' 90 [''A'', ''B'', ''C''] (Some ''tea'') init)) ''C'' = - 30
   \<and> owed (snd (add_expense ''A'' 90 [''A'', ''B'', ''C''] (Some ''tea'') init)) ''B'' ''A'' = 30
   \<and> owed (snd (add_expense ''A'' 90 [''A'', ''B'', ''C''] (Some ''tea'') init)) ''C'' ''A'' = 30"
  using add_expense_single_expense [of "[''A'', ''B'', ''C'']" 90 "''A''" "Some ''tea''"]
  by (simp add: Let_def)

text \<open>
  Claim C10. On every accumulator, when the payer is not in the non-empty list of
  participants, the call leaves the payer's balance as it was (the credit of the amount
  is cancelled by one debit of the share per participant), each participant's balance
  goes down by the share and each participant's entry towards the payer goes up by the
  share, once for each time the list names the participant.
\<close>

theorem add_expense_payer_outside:
  "payer \<notin> set participants \<Longrightarrow> participants \<noteq> [] \<Longrightarrow>
   (let share = amount / of_nat (length participants);
        s' = snd (add_expense payer amount participants item s)
    in fst (add_expense payer amount participants item s) = Inr ()
       \<and> balance_of s' payer = balance_of s payer
       \<and> (\<forall>p\<in>set participants.
              balance_of s' p = balance_of s p - of_nat (count_list participants p) * share
            \<and> owed s' p payer = owed s p payer + of_nat (count_list participants p) * share)
       \<and> (distinct participants \<longrightarrow>
             (\<forall>p\<in>set participants.
                 balance_of s' p = balance_of s p - share
               \<and> owed s' p payer = owed s p payer + share)))"
  by (auto simp: Let_def fst_add_expense balance_of_add_expense owed_add_expense
        count_list_distinct filter_outside)

theorem add_expense_payer_outside_witness:
  "''L'' \<notin> set [''G'', ''K''] \<and> [''G'', ''K''] \<noteq> [] \<and> distinct [''G'', ''K'']
   \<and> (let s = \<lparr>balances = [(''L'', 7), (''G'', - 7)], transactions = [(''G'', [(''L'', 7)])]\<rparr>;
          s' = snd (add_expense ''L'' 100 [''G'', ''K''] (Some ''Coconut Water'') s)
      in balance_of s' ''L'' = 7 \<and> balance_of s' ''G'' = - 57 \<and> balance_of s' ''K'' = - 50
         \<and> owed s' ''G'' ''L'' = 57 \<and> owed s' ''K'' ''L'' = 50)"
  using add_expense_payer_outside [of "''L''" "[''G'', ''K'']" 100 "Some ''Coconut Water''"
      "\<lparr>balances = [(''L'', 7), (''G'', - 7)], transactions = [(''G'', [(''L'', 7)])]\<rparr>"]
  by (simp add: Let_def balance_of_def owed_def entry_of_def dict_get_def)

text \<open>
  Claim C1. The sum of all balances is not kept at zero: the first call of the demo
  script, on the fresh accumulator, leaves balances that add up to \<open>- 9219 / 5\<close>
  (that is \<open>- 1843.8\<close>). The lemma \<open>total_balance_add_expense\<close> above gives the
  change of the sum for every call.
\<close>

theorem demo_first_expense_not_conserved:
  "add_expense ''Agrim'' 3073 [''Agrim'', ''Geet'', ''Ashish'', ''Kartik'', ''Lavisha'']
       (Some ''Diesel'') init =
     (Inr (), \<lparr>balances = [(''Agrim'', 3073 / 5), (''Geet'', - (3073 / 5)),
                           (''Ashish'', - (3073 / 5)), (''Kartik'', - (3073 / 5)),
                           (''Lavisha'', - (3073 / 5))],
               transactions = [(''Geet'', [(''Agrim'', 3073 / 5)]),
                               (''Ashish'', [(''Agrim'', 3073 / 5)]),
                               (''Kartik'', [(''Agrim'', 3073 / 5)]),
                               (''Lavisha'', [(''Agrim'', 3073 / 5)])]\<rparr>)
   \<and> total_balance (snd (add_expense ''Agrim'' 3073
         [''Agrim'', ''Geet'', ''Ashish'', ''Kartik'', ''Lavisha''] (Some ''Diesel'') init))
       = - (9219 / 5)"
  by (simp add: add_expense_def add_expense_body_def init_def Let_def total_balance_def)

subsection \<open>Stored entries are never negative\<close>

lemma inner_nonneg_modify:
  "0 \<le> sp \<Longrightarrow> list_all (\<lambda>(b, v). 0 \<le> v) d \<Longrightarrow>
   list_all (\<lambda>(b, v). (0::rat) \<le> v) (dict_modify 0 q (\<lambda>t. t + sp) d)"
  by (induction d) auto

lemma entries_nonneg_modify:
  "0 \<le> sp \<Longrightarrow> entries_nonneg t \<Longrightarrow>
   entries_nonneg (dict_modify [] p (dict_modify 0 q (\<lambda>t. t + sp)) t)"
  unfolding entries_nonneg_def
  by (induction t) (auto simp: inner_nonneg_modify)

lemma entries_nonneg_body:
  "0 \<le> sp \<Longrightarrow> entries_nonneg (transactions s) \<Longrightarrow>
   entries_nonneg (transactions (add_expense_body payer sp item person s))"
  by (simp add: add_expense_body_def Let_def entries_nonneg_modify)

lemma entries_nonneg_loop:
  "0 \<le> sp \<Longrightarrow> entries_nonneg (transactions s) \<Longrightarrow>
   entries_nonneg (transactions (add_expense_loop payer sp item ps s))"
  by (induction ps arbitrary: s) (simp_all add: entries_nonneg_body)

lemma entries_nonneg_add_expense:
  assumes "0 < amount" and "participants \<noteq> []" and "entries_nonneg (transactions s)"
  shows "entries_nonneg (transactions (snd (add_expense payer amount participants item s)))"
proof -
  from assms(1,2) have "0 \<le> amount / of_nat (length participants)" by simp
  with assms(2,3) show ?thesis
    by (simp add: add_expense_def Let_def entries_nonneg_loop)
qed

lemma add_expenses_valid:
  "list_all valid_expense es \<Longrightarrow> entries_nonneg (transactions s) \<Longrightarrow>
   fst (add_expenses es s) = Inr ()
   \<and> entries_nonneg (transactions (snd (add_expenses es s)))"
proof (induction es arbitrary: s)
  case Nil
  then show ?case by simp
next
  case (Cons e es)
  let ?r = "add_expense (payer_of e) (amount_of e) (participants_of e) (item_of e) s"
  from Cons.prems have rest: "list_all valid_expense es" by simp
  from Cons.prems have v: "0 < amount_of e" "participants_of e \<noteq> []"
    by (simp_all add: valid_expense_def)
  have ok: "fst ?r = Inr ()" using v(2) by (rule fst_add_expense)
  have nonneg: "entries_nonneg (transactions (snd ?r))"
    using v Cons.prems(2) by (rule entries_nonneg_add_expense)
  have "add_expenses (e # es) s = add_expenses es (snd ?r)"
    using ok by (cases ?r) (simp)
  with Cons.IH [OF rest nonneg] show ?case by simp
qed

lemma entry_of_nonneg:
  assumes "entries_nonneg t"
  shows "0 \<le> entry_of t a b"
proof (cases "map_of t a")
  case None
  then show ?thesis by (simp add: entry_of_def dict_get_def)
next
  case (Some d)
  then have "(a, d) \<in> set t" by (rule map_of_SomeD)
  with assms have inner: "list_all (\<lambda>(b, v). 0 \<le> v) d"
    by (auto simp: entries_nonneg_def list_all_iff)
  show ?thesis
  proof (cases "map_of d b")
    case None
    with Some show ?thesis by (simp add: entry_of_def dict_get_def)
  next
    case (Some v)
    then have "(b, v) \<in> set d" by (rule map_of_SomeD)
    with inner have "0 \<le> v" by (auto simp: list_all_iff)
    with Some \<open>map_of t a = Some d\<close> show ?thesis by (simp add: entry_of_def dict_get_def)
  qed
qed

lemma entries_nonneg_init: "entries_nonneg (transactions init)"
  by (simp add: entries_nonneg_def init_def)

text \<open>
  Claim C9, as amended. After any sequence of valid calls (positive amount, non-empty
  participants) on a fresh accumulator, no call has raised, every stored entry of
  \<open>transactions\<close> is at least 0, and so is every entry read (0 when absent): no
  entry is negative.
\<close>

theorem ledger_entries_never_negative:
  "list_all valid_expense es \<Longrightarrow>
   fst (add_expenses es init) = Inr ()
   \<and> entries_nonneg (transactions (snd (add_expenses es init)))
   \<and> (\<forall>a b. 0 \<le> owed (snd (add_expenses es init)) a b)"
  using add_expenses_valid [of es init] entry_of_nonneg
  by (simp add: entries_nonneg_init owed_def)

theorem ledger_entries_never_negative_witness:
  "list_all valid_expense
     [\<lparr>payer_of = ''A'', amount_of = 100, participants_of = [''A'', ''B''], item_of = None\<rparr>,
      \<lparr>payer_of = ''B'', amount_of = 30, participants_of = [''A''], item_of = Some ''tea''\<rparr>]
   \<and> entries_nonneg (transactions (snd (add_expenses
     [\<lparr>payer_of = ''A'', amount_of = 100, participants_of = [''A'', ''B''], item_of = None\<rparr>,
      \<lparr>payer_of = ''B'', amount_of = 30, participants_of = [''A''], item_of = Some ''tea''\<rparr>]
     init)))
   \<and> 0 \<le> owed (snd (add_expenses
     [\<lparr>payer_of = ''A'', amount_of = 100, participants_of = [''A'', ''B''], item_of = None\<rparr>,
      \<lparr>payer_of = ''B'', amount_of = 30, participants_of = [''A''], item_of = Some ''tea''\<rparr>]
     init)) ''A'' ''B''"
proof -
  let ?es = "[\<lparr>payer_of = ''A'', amount_of = 100, participants_of = [''A'', ''B''], item_of = None\<rparr>,
      \<lparr>payer_of = ''B'', amount_of = 30, participants_of = [''A''], item_of = Some ''tea''\<rparr>]"
  have v: "list_all valid_expense ?es" by (simp add: valid_expense_def)
  from ledger_entries_never_negative [OF v] v show ?thesis by simp
qed

text \<open>
  Claim C9 as stated fails: there is no sequence of valid calls on a fresh accumulator
  after which some entry of \<open>transactions\<close> is negative.
\<close>

theorem negative_ledger_entry_counterexample:
  "\<not> (\<exists>es a b. list_all valid_expense es \<and> owed (snd (add_expenses es init)) a b < 0)"
proof
  assume "\<exists>es a b. list_all valid_expense es \<and> owed (snd (add_expenses es init)) a b < 0"
  then obtain es a b where v: "list_all valid_expense es"
    and neg: "owed (snd (add_expenses es init)) a b < 0" by blast
  from add_expenses_valid [OF v entries_nonneg_init]
  have "entries_nonneg (transactions (snd (add_expenses es init)))" by simp
  then have "0 \<le> owed (snd (add_expenses es init)) a b"
    unfolding owed_def by (rule entry_of_nonneg)
  with neg show False by simp
qed

subsection \<open>The two printing passes\<close>

lemma triples_append: "triples (xs @ ys) = triples xs @ triples ys"
  by (simp add: triples_def map_filter_def)

lemma triples_debts: "triples (detailed_debts person debts) = triples (summary_debts person debts)"
  by (induction debts) (auto simp: triples_append, auto simp: triples_def map_filter_def)

lemma triples_passes: "triples (detailed td) = triples (summary td)"
  by (induction td) (auto simp: triples_append triples_debts)

text \<open>
  Claim C5. On every accumulator, \<open>display_transactions\<close> prints the heading of the
  detailed pass, the lines of that pass, the heading of the summary pass and the lines
  of that pass, both passes reading the one table \<open>total_debts\<close>; the two passes give
  the same (debtor, creditor, amount) triples, in the same order, and so the same set.
\<close>

theorem detailed_summary_same_triples:
  "display_transactions s =
     [Heading (CHR 0x0A # ''Detailed Transactions:'')] @ detailed (total_debts s)
       @ [Heading (CHR 0x0A # ''Summary of Total Amounts Owed:'')] @ summary (total_debts s)
   \<and> triples (detailed (total_debts s)) = triples (summary (total_debts s))
   \<and> set (triples (detailed (total_debts s))) = set (triples (summary (total_debts s)))"
  by (simp add: display_transactions_def Let_def triples_passes)

subsection \<open>The net table of \<open>display_transactions\<close>\<close>

lemma amounts_for_simps:
  "amounts_for k [] = 0"
  "amounts_for k ((k', v) # debts) = (if k' = k then v else 0) + amounts_for k debts"
  by (simp_all add: amounts_for_def)

lemma recorded_simps:
  "recorded [] a b = 0"
  "recorded ((p, debts) # t) a b = (if p = a then amounts_for b debts else 0) + recorded t a b"
  by (simp_all add: recorded_def)

lemma entry_of_aggregate_debts:
  "entry_of (aggregate_debts person debts td) a b =
     entry_of td a b + (if a = person then amounts_for b debts else 0)
       - (if b = person then amounts_for a debts else 0)"
proof (induction debts arbitrary: td)
  case Nil
  show ?case by (simp add: amounts_for_simps)
next
  case (Cons pa debts)
  obtain payer amount where pa: "pa = (payer, amount)" by (cases pa)
  let ?td = "dict_modify [] payer (dict_modify 0 person (\<lambda>x. x - amount))
               (dict_modify [] person (dict_modify 0 payer (\<lambda>x. x + amount)) td)"
  have step: "entry_of ?td a b =
        entry_of td a b + (if a = person \<and> b = payer then amount else 0)
          - (if a = payer \<and> b = person then amount else 0)"
    unfolding entry_of_modify
    by (cases "a = payer"; cases "b = person"; cases "a = person"; cases "b = payer") simp_all
  have "entry_of (aggregate_debts person (pa # debts) td) a b =
        entry_of ?td a b + (if a = person then amounts_for b debts else 0)
          - (if b = person then amounts_for a debts else 0)"
    using Cons.IH [of ?td] by (simp add: pa)
  also have "\<dots> = entry_of td a b + (if a = person then amounts_for b (pa # debts) else 0)
          - (if b = person then amounts_for a (pa # debts) else 0)"
    unfolding step by (simp add: pa amounts_for_simps)
  finally show ?case .
qed

lemma entry_of_aggregate:
  "entry_of (aggregate t td) a b = entry_of td a b + recorded t a b - recorded t b a"
proof (induction t arbitrary: td)
  case Nil
  show ?case by (simp add: recorded_simps)
next
  case (Cons pd t)
  obtain person debts where pd: "pd = (person, debts)" by (cases pd)
  have "entry_of (aggregate (pd # t) td) a b =
        entry_of (aggregate_debts person debts td) a b + recorded t a b - recorded t b a"
    using Cons.IH [of "aggregate_debts person debts td"] by (simp add: pd)
  also have "\<dots> = entry_of td a b + recorded (pd # t) a b - recorded (pd # t) b a"
    by (simp add: entry_of_aggregate_debts pd recorded_simps)
  finally show ?case .
qed

lemma amounts_for_absent: "k \<notin> fst ` set d \<Longrightarrow> amounts_for k d = 0"
  by (induction d) (auto simp: amounts_for_simps)

lemma amounts_for_dict:
  "dict_ok d \<Longrightarrow> amounts_for k d = dict_get 0 k d"
proof (induction d)
  case Nil
  show ?case by (simp add: amounts_for_simps dict_get_def)
next
  case (Cons kv d)
  obtain k' v where kv: "kv = (k', v)" by (cases kv)
  from Cons.prems have fresh: "k' \<notin> fst ` set d" and ok: "dict_ok d"
    by (simp_all add: dict_ok_def kv)
  show ?case
  proof (cases "k' = k")
    case True
    with fresh have "amounts_for k d = 0" by (simp add: amounts_for_absent)
    with True show ?thesis by (simp add: kv amounts_for_simps dict_get_def)
  next
    case False
    with Cons.IH [OF ok] show ?thesis by (simp add: kv amounts_for_simps dict_get_def)
  qed
qed

lemma recorded_absent: "a \<notin> fst ` set t \<Longrightarrow> recorded t a b = 0"
  by (induction t) (auto simp: recorded_simps)

lemma recorded_ledger:
  "ledger_ok t \<Longrightarrow> recorded t a b = entry_of t a b"
proof (induction t)
  case Nil
  show ?case by (simp add: recorded_simps entry_of_def dict_get_def)
next
  case (Cons pd t)
  obtain person debts where pd: "pd = (person, debts)" by (cases pd)
  from Cons.prems have fresh: "person \<notin> fst ` set t" and inner: "dict_ok debts"
    and ok: "ledger_ok t"
    by (simp_all add: ledger_ok_def dict_ok_def pd)
  show ?case
  proof (cases "person = a")
    case True
    with fresh have "recorded t a b = 0" by (simp add: recorded_absent)
    with True inner show ?thesis
      by (simp add: pd recorded_simps entry_of_def amounts_for_dict) (simp add: dict_get_def)
  next
    case False
    with Cons.IH [OF ok] show ?thesis
      by (simp add: pd recorded_simps entry_of_def) (simp add: dict_get_def)
  qed
qed

lemma entry_of_total_debts:
  "ledger_ok (transactions s) \<Longrightarrow> entry_of (total_debts s) a b = net s a b"
  by (simp add: total_debts_def entry_of_aggregate recorded_ledger net_def owed_def)
     (simp add: entry_of_def dict_get_def)

lemma keys_dict_modify:
  "map fst (dict_modify dflt k f d) =
     (if k \<in> fst ` set d then map fst d else map fst d @ [k])"
  by (induction d) (force simp: image_iff)+

lemma dict_ok_modify: "dict_ok d \<Longrightarrow> dict_ok (dict_modify dflt k f d)"
  by (simp add: dict_ok_def keys_dict_modify)

lemma inner_ok_modify:
  "list_all (\<lambda>(a, d). dict_ok d) t \<Longrightarrow>
   list_all (\<lambda>(a, d). dict_ok d) (dict_modify [] p (dict_modify 0 q f) t)"
  by (induction t) (auto simp: dict_ok_modify, simp add: dict_ok_def)

lemma ledger_ok_modify:
  "ledger_ok t \<Longrightarrow> ledger_ok (dict_modify [] p (dict_modify 0 q f) t)"
  by (simp add: ledger_ok_def dict_ok_modify inner_ok_modify)

lemma ledger_ok_aggregate_debts:
  "ledger_ok td \<Longrightarrow> ledger_ok (aggregate_debts person debts td)"
  by (induction debts arbitrary: td) (auto simp: ledger_ok_modify)

lemma ledger_ok_aggregate: "ledger_ok td \<Longrightarrow> ledger_ok (aggregate t td)"
  by (induction t arbitrary: td) (auto simp: ledger_ok_aggregate_debts)

lemma ledger_ok_total_debts: "ledger_ok (total_debts s)"
  unfolding total_debts_def
  by (rule ledger_ok_aggregate) (simp add: ledger_ok_def dict_ok_def)

lemma ledger_ok_body:
  "ledger_ok (transactions s) \<Longrightarrow>
   ledger_ok (transactions (add_expense_body payer sp item person s))"
  by (simp add: add_expense_body_def Let_def ledger_ok_modify)

lemma ledger_ok_loop:
  "ledger_ok (transactions s) \<Longrightarrow>
   ledger_ok (transactions (add_expense_loop payer sp item ps s))"
  by (induction ps arbitrary: s) (simp_all add: ledger_ok_body)

lemma ledger_ok_add_expense:
  "ledger_ok (transactions s) \<Longrightarrow>
   ledger_ok (transactions (snd (add_expense payer amount participants item s)))"
  by (simp add: add_expense_def Let_def ledger_ok_loop)

lemma in_detailed_debts:
  "l \<in> set (detailed_debts person debts) \<longleftrightarrow>
     (\<exists>payer amount. l = Owes person payer amount \<and> (payer, amount) \<in> set debts \<and> 0 < amount)"
  by (induction debts) auto

lemma in_detailed:
  "l \<in> set (detailed td) \<longleftrightarrow>
     (\<exists>person debts payer amount. l = Owes person payer amount \<and> (person, debts) \<in> set td
        \<and> (payer, amount) \<in> set debts \<and> 0 < amount)"
  by (induction td) (fastforce simp: in_detailed_debts)+

lemma in_summary_debts:
  "l \<in> set (summary_debts person debts) \<longleftrightarrow>
     (\<exists>payer amount. l = Owes_total person payer amount \<and> (payer, amount) \<in> set debts
        \<and> 0 < amount)"
  by (induction debts) auto

lemma in_summary:
  "l \<in> set (summary td) \<longleftrightarrow>
     (\<exists>person debts payer amount. l = Owes_total person payer amount \<and> (person, debts) \<in> set td
        \<and> (payer, amount) \<in> set debts \<and> 0 < amount)"
  by (induction td) (fastforce simp: in_summary_debts)+

lemma positive_entry_iff:
  assumes "ledger_ok td"
  shows "(\<exists>debts. (a, debts) \<in> set td \<and> (b, v) \<in> set debts \<and> 0 < v)
           \<longleftrightarrow> (v = entry_of td a b \<and> 0 < v)"
proof
  assume "\<exists>debts. (a, debts) \<in> set td \<and> (b, v) \<in> set debts \<and> 0 < v"
  then obtain debts where m: "(a, debts) \<in> set td" "(b, v) \<in> set debts" and pos: "0 < v"
    by blast
  from assms m(1) have inner: "distinct (map fst debts)"
    by (auto simp: ledger_ok_def dict_ok_def list_all_iff)
  from assms have outer: "distinct (map fst td)" by (simp add: ledger_ok_def dict_ok_def)
  from outer m(1) have "map_of td a = Some debts" by simp
  moreover from inner m(2) have "map_of debts b = Some v" by simp
  ultimately show "v = entry_of td a b \<and> 0 < v"
    using pos by (simp add: entry_of_def dict_get_def)
next
  assume r: "v = entry_of td a b \<and> 0 < v"
  show "\<exists>debts. (a, debts) \<in> set td \<and> (b, v) \<in> set debts \<and> 0 < v"
  proof (cases "map_of td a")
    case None
    with r show ?thesis by (auto simp: entry_of_def dict_get_def)
  next
    case (Some debts)
    then have m1: "(a, debts) \<in> set td" by (rule map_of_SomeD)
    show ?thesis
    proof (cases "map_of debts b")
      case None
      with Some r show ?thesis by (auto simp: entry_of_def dict_get_def)
    next
      case (Some v')
      then have "(b, v') \<in> set debts" by (rule map_of_SomeD)
      moreover from Some \<open>map_of td a = Some debts\<close> r have "v' = v"
        by (simp add: entry_of_def dict_get_def)
      ultimately show ?thesis using m1 r by blast
    qed
  qed
qed

lemma distinct_detailed_debts:
  "dict_ok debts \<Longrightarrow> distinct (detailed_debts person debts)"
proof (induction debts)
  case Nil
  show ?case by simp
next
  case (Cons pa debts)
  obtain payer amount where pa: "pa = (payer, amount)" by (cases pa)
  from Cons.prems have fresh: "payer \<notin> fst ` set debts" and ok: "dict_ok debts"
    by (simp_all add: dict_ok_def pa)
  from fresh have "Owes person payer amount \<notin> set (detailed_debts person debts)"
    by (force simp: in_detailed_debts)
  with Cons.IH [OF ok] show ?case by (simp add: pa)
qed

lemma distinct_detailed: "ledger_ok td \<Longrightarrow> distinct (detailed td)"
proof (induction td)
  case Nil
  show ?case by simp
next
  case (Cons pd td)
  obtain person debts where pd: "pd = (person, debts)" by (cases pd)
  from Cons.prems have fresh: "person \<notin> fst ` set td" and inner: "dict_ok debts"
    and ok: "ledger_ok td"
    by (simp_all add: ledger_ok_def dict_ok_def pd)
  from fresh have "set (detailed_debts person debts) \<inter> set (detailed td) = {}"
    by (force simp: in_detailed_debts in_detailed)
  with Cons.IH [OF ok] distinct_detailed_debts [OF inner] show ?case by (simp add: pd)
qed

lemma distinct_summary_debts:
  "dict_ok debts \<Longrightarrow> distinct (summary_debts person debts)"
proof (induction debts)
  case Nil
  show ?case by simp
next
  case (Cons pa debts)
  obtain payer amount where pa: "pa = (payer, amount)" by (cases pa)
  from Cons.prems have fresh: "payer \<notin> fst ` set debts" and ok: "dict_ok debts"
    by (simp_all add: dict_ok_def pa)
  from fresh have "Owes_total person payer amount \<notin> set (summary_debts person debts)"
    by (force simp: in_summary_debts)
  with Cons.IH [OF ok] show ?case by (simp add: pa)
qed

lemma distinct_summary: "ledger_ok td \<Longrightarrow> distinct (summary td)"
proof (induction td)
  case Nil
  show ?case by simp
next
  case (Cons pd td)
  obtain person debts where pd: "pd = (person, debts)" by (cases pd)
  from Cons.prems have fresh: "person \<notin> fst ` set td" and inner: "dict_ok debts"
    and ok: "ledger_ok td"
    by (simp_all add: ledger_ok_def dict_ok_def pd)
  from fresh have "set (summary_debts person debts) \<inter> set (summary td) = {}"
    by (force simp: in_summary_debts in_summary)
  with Cons.IH [OF ok] distinct_summary_debts [OF inner] show ?case by (simp add: pd)
qed

lemma distinct_display_transactions: "distinct (display_transactions s)"
proof -
  let ?td = "total_debts s"
  have d: "distinct (detailed ?td)" and u: "distinct (summary ?td)"
    using ledger_ok_total_debts [of s] by (simp_all add: distinct_detailed distinct_summary)
  have "set (detailed ?td) \<inter> set (summary ?td) = {}"
    by (auto simp: in_detailed in_summary)
  moreover have "Heading h \<notin> set (detailed ?td)" "Heading h \<notin> set (summary ?td)" for h
    by (simp_all add: in_detailed in_summary)
  ultimately show ?thesis using d u
    by (simp add: display_transactions_def Let_def)
qed

lemma owes_line_iff:
  "Owes a b v \<in> set (display_transactions s) \<longleftrightarrow> v = entry_of (total_debts s) a b \<and> 0 < v"
proof -
  have "Owes a b v \<in> set (display_transactions s) \<longleftrightarrow> Owes a b v \<in> set (detailed (total_debts s))"
    by (simp add: display_transactions_def Let_def in_summary)
  also have "\<dots> \<longleftrightarrow> (\<exists>debts. (a, debts) \<in> set (total_debts s) \<and> (b, v) \<in> set debts \<and> 0 < v)"
    by (simp add: in_detailed)
  also have "\<dots> \<longleftrightarrow> v = entry_of (total_debts s) a b \<and> 0 < v"
    using ledger_ok_total_debts by (rule positive_entry_iff)
  finally show ?thesis .
qed

lemma owes_total_line_iff:
  "Owes_total a b v \<in> set (display_transactions s)
     \<longleftrightarrow> v = entry_of (total_debts s) a b \<and> 0 < v"
proof -
  have "Owes_total a b v \<in> set (display_transactions s)
          \<longleftrightarrow> Owes_total a b v \<in> set (summary (total_debts s))"
    by (simp add: display_transactions_def Let_def in_detailed)
  also have "\<dots> \<longleftrightarrow> (\<exists>debts. (a, debts) \<in> set (total_debts s) \<and> (b, v) \<in> set debts \<and> 0 < v)"
    by (simp add: in_summary)
  also have "\<dots> \<longleftrightarrow> v = entry_of (total_debts s) a b \<and> 0 < v"
    using ledger_ok_total_debts by (rule positive_entry_iff)
  finally show ?thesis .
qed

text \<open>
  Claim C4. For every accumulator whose \<open>transactions\<close> is a dictionary of
  dictionaries, the table \<open>total_debts\<close> holds, for every ordered pair \<open>(a, b)\<close>,
  the entry of \<open>a\<close> towards \<open>b\<close> minus the reverse entry (absent entries count 0);
  the detailed pass prints the line "\<open>a\<close> owes \<open>b\<close> \<open>v\<close>" exactly when \<open>v\<close> is
  that net value and is strictly positive, the summary pass likewise, and no line is
  printed twice.
\<close>

theorem display_transactions_net_debts:
  assumes "ledger_ok (transactions s)"
  shows "(\<forall>a b. entry_of (total_debts s) a b = net s a b)
       \<and> (\<forall>a b v. Owes a b v \<in> set (display_transactions s) \<longleftrightarrow> v = net s a b \<and> 0 < v)
       \<and> (\<forall>a b v. Owes_total a b v \<in> set (display_transactions s) \<longleftrightarrow> v = net s a b \<and> 0 < v)
       \<and> distinct (display_transactions s)"
  using assms
  by (simp add: owes_line_iff owes_total_line_iff entry_of_total_debts
        distinct_display_transactions)

theorem display_transactions_net_debts_witness:
  "ledger_ok (transactions (snd (add_expense ''B'' 30 [''A'', ''B''] None
            (snd (add_expense ''A'' 90 [''A'', ''B'', ''C''] (Some ''fuel'') init)))))
   \<and> Owes ''B'' ''A'' 15 \<in> set (display_transactions (snd (add_expense ''B'' 30 [''A'', ''B''] None
            (snd (add_expense ''A'' 90 [''A'', ''B'', ''C''] (Some ''fuel'') init)))))
   \<and> Owes ''A'' ''B'' (- 15) \<notin> set (display_transactions (snd (add_expense ''B'' 30 [''A'', ''B''] None
            (snd (add_expense ''A'' 90 [''A'', ''B'', ''C''] (Some ''fuel'') init)))))"
proof -
  let ?s = "snd (add_expense ''B'' 30 [''A'', ''B''] None
            (snd (add_expense ''A'' 90 [''A'', ''B'', ''C''] (Some ''fuel'') init)))"
  have s: "?s = \<lparr>balances = [(''A'', 15), (''B'', - 15), (''C'', - 30)],
                transactions = [(''B'', [(''A'', 30)]), (''C'', [(''A'', 30)]),
                                (''A'', [(''B'', 15)])]\<rparr>"
    by (simp add: add_expense_def add_expense_body_def init_def Let_def)
  have ok: "ledger_ok (transactions ?s)"
    unfolding s by (simp add: ledger_ok_def dict_ok_def)
  have n: "net ?s ''B'' ''A'' = 15" "net ?s ''A'' ''B'' = - 15"
    unfolding s by (simp_all add: net_def owed_def entry_of_def dict_get_def)
  from display_transactions_net_debts [OF ok] n ok show ?thesis by simp
qed

subsection \<open>Two opposite expenses\<close>

text \<open>
  Claim C7. From a fresh accumulator, after \<open>add_expense("A", x, ["A", "B"])\<close> and
  then \<open>add_expense("B", x, ["B", "A"])\<close> with \<open>x\<close> positive, both calls return, the
  net debt between \<open>A\<close> and \<open>B\<close> is 0 in both directions, in the specification's
  formula and in the table \<open>total_debts\<close>, and \<open>display_transactions\<close> prints the two
  headings and no line.
\<close>

theorem opposite_expenses_cancel:
  "0 < x \<Longrightarrow>
   (let s1 = snd (add_expense ''A'' x [''A'', ''B''] item1 init);
        s2 = snd (add_expense ''B'' x [''B'', ''A''] item2 s1)
    in fst (add_expense ''A'' x [''A'', ''B''] item1 init) = Inr ()
       \<and> fst (add_expense ''B'' x [''B'', ''A''] item2 s1) = Inr ()
       \<and> net s2 ''A'' ''B'' = 0 \<and> net s2 ''B'' ''A'' = 0
       \<and> entry_of (total_debts s2) ''A'' ''B'' = 0
       \<and> entry_of (total_debts s2) ''B'' ''A'' = 0
       \<and> display_transactions s2 =
           [Heading (CHR 0x0A # ''Detailed Transactions:''),
            Heading (CHR 0x0A # ''Summary of Total Amounts Owed:'')])"
  by (simp add: add_expense_def add_expense_body_def init_def Let_def net_def owed_def
        entry_of_def dict_get_def total_debts_def display_transactions_def)

theorem opposite_expenses_cancel_witness:
  "(0::rat) < 100 \<and>
   display_transactions
     (snd (add_expense ''B'' 100 [''B'', ''A''] (Some ''tea'')
        (snd (add_expense ''A'' 100 [''A'', ''B''] None init)))) =
     [Heading (CHR 0x0A # ''Detailed Transactions:''),
            Heading (CHR 0x0A # ''Summary of Total Amounts Owed:'')]"
  using opposite_expenses_cancel [of 100 None "Some ''tea''"]
  by (simp add: Let_def)

subsection \<open>Snapshots\<close>

text \<open>
  In a store where the accumulator's references are allocated, both methods leave the
  content of the accumulator as it was, the snapshot of \<open>get_balances\<close> shows the
  balances, and storing under a key of either snapshot does not reach the accumulator.
\<close>

lemma items_py_dict_old:
  "r < next_ref st \<Longrightarrow> items (snd (py_dict r' st)) r = items st r"
  by (simp add: py_dict_def items_def Let_def)

lemma items_py_dict_new:
  "items (snd (py_dict r st)) (fst (py_dict r st)) = items st r"
  by (simp add: py_dict_def items_def Let_def)

lemma view_floats_py_dict:
  "r < next_ref st \<Longrightarrow> view_floats (snd (py_dict r' st)) r = view_floats st r"
  by (simp add: view_floats_def items_py_dict_old)

lemma view_inner_py_dict:
  "ref_below (next_ref st) v \<Longrightarrow> view_inner (snd (py_dict r' st)) v = view_inner st v"
  by (cases v) (simp_all add: view_floats_py_dict)

lemma view_nested_py_dict:
  assumes "r < next_ref st" and "list_all (\<lambda>(k, v). ref_below (next_ref st) v) (items st r)"
  shows "view_nested (snd (py_dict r' st)) r = view_nested st r"
proof -
  have "map (\<lambda>(k, v). (k, view_inner (snd (py_dict r' st)) v)) (items st r) =
        map (\<lambda>(k, v). (k, view_inner st v)) (items st r)"
    using assms(2) by (induction "items st r") (auto simp: list_all_iff view_inner_py_dict)
  with assms(1) show ?thesis by (simp add: view_nested_def items_py_dict_old)
qed

lemma get_balances_frame:
  "store_ok st self \<Longrightarrow> state_of (snd (get_balances self st)) self = state_of st self"
  by (simp add: store_ok_def state_of_def get_balances_def view_floats_py_dict
        view_nested_py_dict)

lemma get_transactions_frame:
  "store_ok st self \<Longrightarrow> state_of (snd (get_transactions self st)) self = state_of st self"
  by (simp add: store_ok_def state_of_def get_transactions_def view_floats_py_dict
        view_nested_py_dict)

lemma get_balances_snapshot:
  "view_floats (snd (get_balances self st)) (fst (get_balances self st)) =
     balances (state_of st self)"
  by (simp add: get_balances_def view_floats_def items_py_dict_new state_of_def)

lemma items_py_setitem_other:
  "r \<noteq> r' \<Longrightarrow> items (py_setitem r' k v st) r = items st r"
  by (simp add: py_setitem_def items_def)

lemma view_floats_py_setitem:
  "r \<noteq> r' \<Longrightarrow> view_floats (py_setitem r' k v st) r = view_floats st r"
  by (simp add: view_floats_def items_py_setitem_other)

lemma view_inner_py_setitem:
  "ref_below r' w \<Longrightarrow> view_inner (py_setitem r' k v st) w = view_inner st w"
  by (cases w) (simp_all add: view_floats_py_setitem)

lemma view_nested_py_setitem:
  assumes "r \<noteq> r'" and "list_all (\<lambda>(k, w). ref_below r' w) (items st r)"
  shows "view_nested (py_setitem r' k v st) r = view_nested st r"
proof -
  have "map (\<lambda>(k', w). (k', view_inner (py_setitem r' k v st) w)) (items st r) =
        map (\<lambda>(k', w). (k', view_inner st w)) (items st r)"
    using assms(2) by (induction "items st r") (auto simp: list_all_iff view_inner_py_setitem)
  with assms(1) show ?thesis by (simp add: view_nested_def items_py_setitem_other)
qed

lemma snapshot_key_isolated:
  assumes "store_ok st self"
  shows "state_of (py_setitem (fst (py_dict r st)) k v (snd (py_dict r st))) self =
         state_of st self"
proof -
  let ?new = "fst (py_dict r st)" and ?st = "snd (py_dict r st)"
  have new: "?new = next_ref st" by (simp add: py_dict_def Let_def)
  from assms have b: "balances_ref self < next_ref st" and t: "transactions_ref self < next_ref st"
    and inner: "list_all (\<lambda>(k, v). ref_below (next_ref st) v) (items st (transactions_ref self))"
    by (simp_all add: store_ok_def)
  from t inner have inner': "list_all (\<lambda>(k, w). ref_below ?new w) (items ?st (transactions_ref self))"
    by (simp add: new items_py_dict_old)
  have "view_floats (py_setitem ?new k v ?st) (balances_ref self) = view_floats st (balances_ref self)"
    using b by (simp add: new view_floats_py_setitem view_floats_py_dict)
  moreover have "view_nested (py_setitem ?new k v ?st) (transactions_ref self)
                   = view_nested st (transactions_ref self)"
    using t inner inner' view_nested_py_setitem [of "transactions_ref self" ?new ?st k v]
    by (simp add: new view_nested_py_dict)
  ultimately show ?thesis by (simp add: state_of_def)
qed

text \<open>
  Claim C8. In the store after \<open>add_expense('A', 100, ['A', 'B'])\<close> on a new
  accumulator: both methods leave the accumulator as it was, two consecutive calls give
  equal snapshots, and storing under a key of a snapshot does not change the
  accumulator; but \<open>snap = get_transactions(); snap['B']['A'] = 0\<close> changes
  \<open>transactions['B']['A']\<close> of the accumulator from 50 to 0, because the snapshot
  holds the accumulator's own inner dictionary, and the line "B owes A 50" of
  \<open>display_transactions\<close> is gone.
\<close>

theorem get_transactions_shares_inner_dicts:
  "state_of shared_store shared_manager =
     snd (add_expense ''A'' 100 [''A'', ''B''] None init)
   \<and> (let (snap, st1) = get_transactions shared_manager shared_store;
          (snap', st2) = get_transactions shared_manager st1
      in state_of st1 shared_manager = state_of shared_store shared_manager
         \<and> view_nested st2 snap = view_nested st2 snap'
         \<and> state_of (py_setitem snap ''C'' (Float 1) st1) shared_manager
             = state_of shared_store shared_manager
         \<and> (case py_setitem_nested snap ''B'' ''A'' (Float 0) st1 of
               Inl e \<Rightarrow> False
             | Inr st3 \<Rightarrow>
                 transactions (state_of st3 shared_manager) = [(''B'', [(''A'', 0)])]
                 \<and> transactions (state_of shared_store shared_manager) = [(''B'', [(''A'', 50)])]
                 \<and> Owes ''B'' ''A'' 50 \<in> set (display_transactions (state_of shared_store shared_manager))
                 \<and> Owes ''B'' ''A'' 50 \<notin> set (display_transactions (state_of st3 shared_manager))))
   \<and> (let (snap, st1) = get_balances shared_manager shared_store;
          (snap', st2) = get_balances shared_manager st1
      in state_of st1 shared_manager = state_of shared_store shared_manager
         \<and> view_floats st2 snap = view_floats st2 snap'
         \<and> state_of (py_setitem snap ''B'' (Float 0) st1) shared_manager
             = state_of shared_store shared_manager)"
  by (simp add: state_of_def shared_store_def shared_manager_def view_floats_def view_nested_def
        items_def add_expense_def add_expense_body_def init_def Let_def
        get_transactions_def get_balances_def py_dict_def py_setitem_def py_setitem_nested_def
        py_getitem_def display_transactions_def total_debts_def)

end
